theory Spec2Isabelle
  imports Main "HOL-Library.Sublist"
begin

section \<open>Strings, string views and the key slice\<close>

text \<open>
  \<^verbatim>\<open>QString\<close> and \<^verbatim>\<open>std::string\<close> are embedded as \<^typ>\<open>string\<close>, the sequence of their
  characters; \<^verbatim>\<open>toStdString\<close> and \<^verbatim>\<open>fromStdString\<close> are the identity. A \<^verbatim>\<open>QStringView\<close> is
  either the null view, which the default constructor \<^verbatim>\<open>QStringView()\<close> gives, or a view
  of some characters; \<^verbatim>\<open>isNull()\<close> tells the two apart, \<^verbatim>\<open>isEmpty()\<close> asks for size zero
  and so holds of the null view and of a view of no characters alike. The views that
  the callers pass into \<^verbatim>\<open>keyNameFromPrefixedStorageName\<close> are views of strings (the
  first key prefix, a name read from the storage), which are not null: the arguments are
  strings here, and \<^verbatim>\<open>sliced\<close> of such a view is a view again, also when nothing is left.
\<close>

datatype QStringView = NullView | View string

fun chars :: "QStringView \<Rightarrow> string" where
  "chars NullView = []"
| "chars (View s) = s"

definition isNull :: "QStringView \<Rightarrow> bool" where
  "isNull v = (v = NullView)"

definition isEmpty :: "QStringView \<Rightarrow> bool" where
  "isEmpty v = (chars v = [])"

definition startsWith :: "string \<Rightarrow> string \<Rightarrow> bool" where
  "startsWith s p = prefix p s"

definition sliced :: "string \<Rightarrow> nat \<Rightarrow> QStringView" where
  "sliced s pos = View (drop pos s)"

definition keyNameFromPrefixedStorageName :: "string \<Rightarrow> string \<Rightarrow> QStringView" where
  "keyNameFromPrefixedStorageName prefix' prefixedStorageName =
     (if \<not> startsWith prefixedStorageName prefix' then NullView
      else sliced prefixedStorageName (length prefix'))"

section \<open>The synchronous storage primitive\<close>

text \<open>
  \<^verbatim>\<open>window.localStorage\<close> is the browser's: a finite map from key strings to value
  strings that can be enumerated by index. It is an association list here, in the order
  \<^verbatim>\<open>key(i)\<close> enumerates it; \<^verbatim>\<open>setItem\<close> overwrites the entry of a key that is present and
  appends otherwise, \<^verbatim>\<open>removeItem\<close> deletes the entry of a key. The storage quota is not
  represented: \<^verbatim>\<open>setItem\<close> always succeeds.
\<close>

type_synonym localStorage = "(string \<times> string) list"

definition getItem :: "localStorage \<Rightarrow> string \<Rightarrow> string option" where
  "getItem st k = map_of st k"

fun setItem :: "string \<Rightarrow> string \<Rightarrow> localStorage \<Rightarrow> localStorage" where
  "setItem k v [] = [(k, v)]"
| "setItem k v (e # st) = (if fst e = k then (k, v) # st else e # setItem k v st)"

definition removeItem :: "string \<Rightarrow> localStorage \<Rightarrow> localStorage" where
  "removeItem k st = filter (\<lambda>e. fst e \<noteq> k) st"

definition storageLength :: "localStorage \<Rightarrow> nat" where
  "storageLength st = length st"

definition storageKey :: "localStorage \<Rightarrow> nat \<Rightarrow> string" where
  "storageKey st i = fst (st ! i)"

section \<open>The settings base object\<close>

datatype Status = NoError | AccessError

datatype Scope = UserScope | SystemScope

datatype error = UndefinedBehaviour

record QSettingsPrivate =
  status :: Status

text \<open>
  Modelled from the spec: \<^verbatim>\<open>QSettingsPrivate::setStatus\<close> and the base-class constructor
  are declared in \<^verbatim>\<open>qsettings_p.h\<close> and defined outside \<^verbatim>\<open>src/\<close>. The spec knows the two
  statuses \<^verbatim>\<open>NoError\<close> and \<^verbatim>\<open>AccessError\<close>, held in "a single instance-level status flag";
  a success "clears error", a failure "sets access error". A freshly built base object
  reports \<^verbatim>\<open>NoError\<close>.
\<close>

definition setStatus :: "Status \<Rightarrow> 'a QSettingsPrivate_scheme \<Rightarrow> 'a QSettingsPrivate_scheme" where
  "setStatus s this = this\<lparr>status := s\<rparr>"

text \<open>
  \<^verbatim>\<open>QList::first()\<close> requires a list that is not empty: \<^verbatim>\<open>Q_ASSERT(!isEmpty())\<close> stops a
  debug build there, and a release build has undefined behaviour. \<^verbatim>\<open>Inl UndefinedBehaviour\<close>
  says that the call left the defined behaviour of the program. It is not a clean stop:
  nothing is known of what the caller does to the storage afterwards.
\<close>

definition first :: "'a list \<Rightarrow> error + 'a" where
  "first xs = (case xs of [] \<Rightarrow> Inl UndefinedBehaviour | x # _ \<Rightarrow> Inr x)"

section \<open>The localStorage backend\<close>

record QWasmLocalStorageSettingsPrivate = QSettingsPrivate +
  m_keyPrefixes :: "string list"

text \<open>\<^verbatim>\<open>QString::replace(separator, doubleSeparator)\<close>: every \<^verbatim>\<open>-\<close> becomes \<^verbatim>\<open>--\<close>.\<close>

definition replaceSeparator :: "string \<Rightarrow> string" where
  "replaceSeparator s = concat (map (\<lambda>c. if c = CHR ''-'' then ''--'' else [c]) s)"

definition QWasmLocalStorageSettingsPrivate_ctor ::
  "Scope \<Rightarrow> string \<Rightarrow> string \<Rightarrow> QWasmLocalStorageSettingsPrivate" where
  "QWasmLocalStorageSettingsPrivate_ctor scope organization application =
     (let this = \<lparr>status = NoError, m_keyPrefixes = []\<rparr> in
      if organization = [] then setStatus AccessError this
      else
        let allAppsSetting = ''all-apps'';
            systemSetting = ''sys-tem'';
            separator = ''-'';
            escapedOrganization = replaceSeparator organization;
            escapedApplication = replaceSeparator application;
            prefix' = ''qt-v0-'' @ escapedOrganization @ separator;
            ps1 = (if scope = UserScope
                   then (if escapedApplication \<noteq> []
                         then [prefix' @ escapedApplication @ separator] else [])
                        @ [prefix' @ allAppsSetting @ separator]
                   else []);
            ps2 = ps1 @ (if escapedApplication \<noteq> []
                         then [prefix' @ escapedApplication @ separator @ systemSetting @ separator]
                         else []);
            ps3 = ps2 @ [prefix' @ allAppsSetting @ separator @ systemSetting @ separator]
        in this\<lparr>m_keyPrefixes := ps3\<rparr>)"

text \<open>
  \<^verbatim>\<open>remove\<close>: the first pass walks the indices \<^verbatim>\<open>0 .. length-1\<close> of the storage and
  collects into \<^verbatim>\<open>children\<close>, after \<^verbatim>\<open>removed\<close>, every stored name whose key slice is not
  empty and starts with \<^verbatim>\<open>key\<close>; the second pass removes each collected name. The test
  \<^verbatim>\<open>storedKey.startsWith(key)\<close> is reached with a view that is not empty only, hence
  never with the null view, and reads the characters of the view.
\<close>

definition remove_collect :: "string \<Rightarrow> string \<Rightarrow> localStorage \<Rightarrow> string list" where
  "remove_collect firstPrefix key st =
     concat (map (\<lambda>i.
        let storedKeyWithPrefix = storageKey st i;
            storedKey = keyNameFromPrefixedStorageName firstPrefix storedKeyWithPrefix
        in if isEmpty storedKey \<or> \<not> startsWith (chars storedKey) key then []
           else [storedKeyWithPrefix]) [0..<storageLength st])"

definition QWasmLocalStorageSettingsPrivate_remove ::
  "QWasmLocalStorageSettingsPrivate \<Rightarrow> string \<Rightarrow> localStorage \<Rightarrow> error + localStorage" where
  "QWasmLocalStorageSettingsPrivate_remove this key st =
     (case first (m_keyPrefixes this) of
        Inl e \<Rightarrow> Inl e
      | Inr firstPrefix \<Rightarrow>
          let removed = firstPrefix @ key;
              children = removed # remove_collect firstPrefix key st
          in Inr (foldl (\<lambda>s child. removeItem child s) st children))"

definition QWasmLocalStorageSettingsPrivate_set ::
  "QWasmLocalStorageSettingsPrivate \<Rightarrow> ('v \<Rightarrow> string) \<Rightarrow> string \<Rightarrow> 'v \<Rightarrow> localStorage
     \<Rightarrow> error + localStorage" where
  "QWasmLocalStorageSettingsPrivate_set this variantToString key val st =
     (case first (m_keyPrefixes this) of
        Inl e \<Rightarrow> Inl e
      | Inr firstPrefix \<Rightarrow> Inr (setItem (firstPrefix @ key) (variantToString val) st))"

text \<open>
  \<^verbatim>\<open>get\<close>: the loop over \<^verbatim>\<open>m_keyPrefixes\<close>. \<^verbatim>\<open>fallbacks\<close> is a member of the base class,
  set by the front-end; \<^verbatim>\<open>stringToVariant\<close> is the base class's parser.
\<close>

fun get_loop :: "bool \<Rightarrow> (string \<Rightarrow> 'v) \<Rightarrow> string list \<Rightarrow> string \<Rightarrow> localStorage \<Rightarrow> 'v option" where
  "get_loop fallbacks stringToVariant [] key st = None"
| "get_loop fallbacks stringToVariant (prefix' # rest) key st =
     (case getItem st (prefix' @ key) of
        Some v \<Rightarrow> Some (stringToVariant v)
      | None \<Rightarrow> if \<not> fallbacks then None else get_loop fallbacks stringToVariant rest key st)"

definition QWasmLocalStorageSettingsPrivate_get ::
  "QWasmLocalStorageSettingsPrivate \<Rightarrow> bool \<Rightarrow> (string \<Rightarrow> 'v) \<Rightarrow> string \<Rightarrow> localStorage
     \<Rightarrow> 'v option" where
  "QWasmLocalStorageSettingsPrivate_get this fallbacks stringToVariant key st =
     get_loop fallbacks stringToVariant (m_keyPrefixes this) key st"

text \<open>
  \<^verbatim>\<open>clear\<close>: the first pass copies every stored name into \<^verbatim>\<open>keys\<close>; the second pass
  evaluates \<^verbatim>\<open>m_keyPrefixes.first()\<close> for each of them and removes those with a
  non-empty key slice.
\<close>

fun clear_loop :: "string list \<Rightarrow> string list \<Rightarrow> localStorage \<Rightarrow> error + localStorage" where
  "clear_loop keyPrefixes [] st = Inr st"
| "clear_loop keyPrefixes (key # keys) st =
     (case first keyPrefixes of
        Inl e \<Rightarrow> Inl e
      | Inr firstPrefix \<Rightarrow>
          clear_loop keyPrefixes keys
            (if \<not> isEmpty (keyNameFromPrefixedStorageName firstPrefix key)
             then removeItem key st else st))"

definition QWasmLocalStorageSettingsPrivate_clear ::
  "QWasmLocalStorageSettingsPrivate \<Rightarrow> localStorage \<Rightarrow> error + localStorage" where
  "QWasmLocalStorageSettingsPrivate_clear this st =
     clear_loop (m_keyPrefixes this) (map (storageKey st) [0..<storageLength st]) st"

definition QWasmLocalStorageSettingsPrivate_sync :: "localStorage \<Rightarrow> localStorage" where
  "QWasmLocalStorageSettingsPrivate_sync st = st"

definition QWasmLocalStorageSettingsPrivate_flush :: "localStorage \<Rightarrow> localStorage" where
  "QWasmLocalStorageSettingsPrivate_flush st = st"

definition QWasmLocalStorageSettingsPrivate_isWritable :: "QWasmLocalStorageSettingsPrivate \<Rightarrow> bool" where
  "QWasmLocalStorageSettingsPrivate_isWritable this = True"

section \<open>The specification's own wording\<close>

text \<open>
  What the specification says \<^verbatim>\<open>get\<close> returns, written after its words rather than after
  the loop: with fallbacks, the parsed value of the first prefix whose \<^verbatim>\<open>prefix + key\<close> is
  present; without, that of the first prefix only; absent otherwise.
\<close>

definition get_by_spec :: "bool \<Rightarrow> (string \<Rightarrow> 'v) \<Rightarrow> string list \<Rightarrow> string \<Rightarrow> localStorage \<Rightarrow> 'v option" where
  "get_by_spec fallbacks parse ps key st =
     (if fallbacks
      then (case find (\<lambda>p. getItem st (p @ key) \<noteq> None) ps of
              None \<Rightarrow> None
            | Some p \<Rightarrow> map_option parse (getItem st (p @ key)))
      else (case ps of [] \<Rightarrow> None | p # _ \<Rightarrow> map_option parse (getItem st (p @ key))))"

text \<open>
  The specification's hierarchical namespace separates path segments by \<^verbatim>\<open>/\<close> (its
  examples are \<^verbatim>\<open>a/b\<close> and \<^verbatim>\<open>a/b/c\<close>): \<open>k\<close> is a strict descendant of \<open>key\<close> when it
  is \<open>key\<close>, a separator and a non-empty rest.
\<close>

definition childPath :: "string \<Rightarrow> string \<Rightarrow> bool" where
  "childPath key k = (prefix (key @ ''/'') k \<and> length key + 1 < length k)"

text \<open>
  The most specific prefix that applies to a scope, an organization and an application:
  the application's own when there is an application and the all-applications one
  otherwise, in the system variant for the system scope.
\<close>

definition mostSpecificPrefix :: "Scope \<Rightarrow> string \<Rightarrow> string \<Rightarrow> string" where
  "mostSpecificPrefix scope organization application =
     ''qt-v0-'' @ replaceSeparator organization @ ''-''
       @ (if application = [] then ''all-apps'' else replaceSeparator application) @ ''-''
       @ (if scope = SystemScope then ''sys-tem-'' else [])"

section \<open>The IndexedDB backend\<close>

text \<open>
  An instance is identified by its address, the \<^verbatim>\<open>void *userData\<close> handed to the
  asynchronous calls. The process is a record of the two file-level statics
  (\<^verbatim>\<open>liveSettings\<close>, \<^verbatim>\<open>isReadReady\<close>), the objects that are allocated, and the requests
  issued to the database so far. The file-backed engine \<^verbatim>\<open>QConfFileSettingsPrivate\<close> is
  an external collaborator: an instance only logs the calls delegated to it, and what
  the engine and the base-class constructor do on their own is not represented. Whether
  \<^verbatim>\<open>QFile::open\<close> succeeds is decided by the environment and passed as \<^verbatim>\<open>opened\<close>; the
  bytes moved are not represented.
\<close>

type_synonym ptr = nat

datatype confFileCall = ConfInitAccess | ConfClear | ConfSync

record QWasmIDBSettingsPrivate = QSettingsPrivate +
  databaseName :: string
  id' :: string
  confFileCalls :: "confFileCall list"

datatype idbRequest = AsyncExists ptr | AsyncLoad ptr | AsyncStore ptr | AsyncDelete ptr

datatype fault = InvalidPointer

record process =
  liveSettings :: "ptr list"
  isReadReady :: bool
  objects :: "ptr \<rightharpoonup> QWasmIDBSettingsPrivate"
  requests :: "idbRequest list"

definition initialProcess :: process where
  "initialProcess = \<lparr>liveSettings = [], isReadReady = False, objects = Map.empty, requests = []\<rparr>"

text \<open>Dereferencing \<^verbatim>\<open>this\<close> or \<^verbatim>\<open>settings\<close>: a fault when no object lives at the address.\<close>

definition onObject ::
  "ptr \<Rightarrow> (QWasmIDBSettingsPrivate \<Rightarrow> QWasmIDBSettingsPrivate) \<Rightarrow> process \<Rightarrow> fault + process" where
  "onObject this f w =
     (case objects w this of
        None \<Rightarrow> Inl InvalidPointer
      | Some obj \<Rightarrow> Inr (w\<lparr>objects := (objects w)(this \<mapsto> f obj)\<rparr>))"

definition delegate :: "confFileCall \<Rightarrow> QWasmIDBSettingsPrivate \<Rightarrow> QWasmIDBSettingsPrivate" where
  "delegate c obj = obj\<lparr>confFileCalls := confFileCalls obj @ [c]\<rparr>"

definition issue :: "idbRequest \<Rightarrow> process \<Rightarrow> process" where
  "issue r w = w\<lparr>requests := requests w @ [r]\<rparr>"

definition QWasmIDBSettingsPrivate_get :: "process \<Rightarrow> ptr \<Rightarrow> ptr option" where
  "QWasmIDBSettingsPrivate_get w userData =
     (if userData \<in> set (liveSettings w) then Some userData else None)"

definition QWasmIDBSettingsPrivate_setReady :: "ptr \<Rightarrow> process \<Rightarrow> fault + process" where
  "QWasmIDBSettingsPrivate_setReady this w =
     onObject this (delegate ConfInitAccess \<circ> setStatus NoError) (w\<lparr>isReadReady := True\<rparr>)"

definition QWasmIDBSettingsPrivate_loadLocal :: "ptr \<Rightarrow> process \<Rightarrow> fault + process" where
  "QWasmIDBSettingsPrivate_loadLocal this w = Inr (issue (AsyncLoad this) w)"

definition QWasmIDBSettingsPrivate_onLoad :: "ptr \<Rightarrow> bool \<Rightarrow> process \<Rightarrow> fault + process" where
  "QWasmIDBSettingsPrivate_onLoad userData opened w =
     (case QWasmIDBSettingsPrivate_get w userData of
        None \<Rightarrow> Inr w
      | Some settings \<Rightarrow>
          (case onObject settings (\<lambda>obj. obj) w of
             Inl e \<Rightarrow> Inl e
           | Inr w' \<Rightarrow> if opened then QWasmIDBSettingsPrivate_setReady settings w' else Inr w'))"

definition QWasmIDBSettingsPrivate_onError :: "ptr \<Rightarrow> process \<Rightarrow> fault + process" where
  "QWasmIDBSettingsPrivate_onError userData w =
     (case QWasmIDBSettingsPrivate_get w userData of
        None \<Rightarrow> Inr w
      | Some settings \<Rightarrow> onObject settings (setStatus AccessError) w)"

definition QWasmIDBSettingsPrivate_onStore :: "ptr \<Rightarrow> process \<Rightarrow> fault + process" where
  "QWasmIDBSettingsPrivate_onStore userData w =
     (case QWasmIDBSettingsPrivate_get w userData of
        None \<Rightarrow> Inr w
      | Some settings \<Rightarrow> onObject settings (setStatus NoError) w)"

definition QWasmIDBSettingsPrivate_onCheck :: "ptr \<Rightarrow> int \<Rightarrow> process \<Rightarrow> fault + process" where
  "QWasmIDBSettingsPrivate_onCheck userData exists w =
     (case QWasmIDBSettingsPrivate_get w userData of
        None \<Rightarrow> Inr w
      | Some settings \<Rightarrow>
          if exists \<noteq> 0
          then (case onObject settings (\<lambda>obj. obj) w of
                  Inl e \<Rightarrow> Inl e
                | Inr w' \<Rightarrow> QWasmIDBSettingsPrivate_loadLocal settings w')
          else QWasmIDBSettingsPrivate_setReady settings w)"

definition QWasmIDBSettingsPrivate_ctor ::
  "ptr \<Rightarrow> Scope \<Rightarrow> string \<Rightarrow> string \<Rightarrow> process \<Rightarrow> process" where
  "QWasmIDBSettingsPrivate_ctor this scope organization application w =
     (let w1 = w\<lparr>liveSettings := liveSettings w @ [this]\<rparr>;
          obj = setStatus AccessError
                  \<lparr>status = NoError, databaseName = [], id' = [], confFileCalls = []\<rparr>;
          obj' = obj\<lparr>databaseName := organization, id' := application\<rparr>;
          w2 = w1\<lparr>objects := (objects w1)(this \<mapsto> obj')\<rparr>
      in issue (AsyncExists this) w2)"

definition QWasmIDBSettingsPrivate_dtor :: "ptr \<Rightarrow> process \<Rightarrow> fault + process" where
  "QWasmIDBSettingsPrivate_dtor this w =
     (case objects w this of
        None \<Rightarrow> Inl InvalidPointer
      | Some obj \<Rightarrow>
          Inr (w\<lparr>liveSettings := removeAll this (liveSettings w),
                 objects := (objects w)(this := None)\<rparr>))"

definition QWasmIDBSettingsPrivate_initAccess :: "ptr \<Rightarrow> process \<Rightarrow> fault + process" where
  "QWasmIDBSettingsPrivate_initAccess this w =
     (if isReadReady w then onObject this (delegate ConfInitAccess) w else Inr w)"

definition QWasmIDBSettingsPrivate_get_key ::
  "ptr \<Rightarrow> (string \<Rightarrow> 'v option) \<Rightarrow> string \<Rightarrow> process \<Rightarrow> 'v option" where
  "QWasmIDBSettingsPrivate_get_key this confFileGet key w =
     (if isReadReady w then confFileGet key else None)"

definition QWasmIDBSettingsPrivate_isWritable :: "ptr \<Rightarrow> bool \<Rightarrow> process \<Rightarrow> bool" where
  "QWasmIDBSettingsPrivate_isWritable this confFileWritable w =
     (isReadReady w \<and> confFileWritable)"

definition QWasmIDBSettingsPrivate_clear :: "ptr \<Rightarrow> process \<Rightarrow> fault + process" where
  "QWasmIDBSettingsPrivate_clear this w =
     (case onObject this (delegate ConfClear) w of
        Inl e \<Rightarrow> Inl e
      | Inr w' \<Rightarrow> Inr (issue (AsyncDelete this) w'))"

definition QWasmIDBSettingsPrivate_sync :: "ptr \<Rightarrow> bool \<Rightarrow> process \<Rightarrow> fault + process" where
  "QWasmIDBSettingsPrivate_sync this opened w =
     (case onObject this (delegate ConfSync) w of
        Inl e \<Rightarrow> Inl e
      | Inr w' \<Rightarrow> if opened then Inr (issue (AsyncStore this) w') else Inr w')"

definition QWasmIDBSettingsPrivate_flush :: "ptr \<Rightarrow> bool \<Rightarrow> process \<Rightarrow> fault + process" where
  "QWasmIDBSettingsPrivate_flush this opened w = QWasmIDBSettingsPrivate_sync this opened w"

definition QWasmIDBSettingsPrivate_syncToLocal :: "ptr \<Rightarrow> bool \<Rightarrow> process \<Rightarrow> fault + process" where
  "QWasmIDBSettingsPrivate_syncToLocal this opened w =
     (case onObject this (\<lambda>obj. obj) w of
        Inl e \<Rightarrow> Inl e
      | Inr w' \<Rightarrow>
          if opened then QWasmIDBSettingsPrivate_setReady this (issue (AsyncStore this) w')
          else Inr w')"

text \<open>
  What can happen to the process: the application constructs, uses and destroys
  instances, and the event loop delivers completions.
\<close>

datatype event =
    Construct ptr Scope string string
  | Destroy ptr
  | OnLoad ptr bool
  | OnError ptr
  | OnStore ptr
  | OnCheck ptr int
  | InitAccess ptr
  | Clear ptr
  | Sync ptr bool
  | Flush ptr bool
  | SyncToLocal ptr bool
  | LoadLocal ptr

fun step :: "event \<Rightarrow> process \<Rightarrow> fault + process" where
  "step (Construct p scope organization application) w =
     Inr (QWasmIDBSettingsPrivate_ctor p scope organization application w)"
| "step (Destroy p) w = QWasmIDBSettingsPrivate_dtor p w"
| "step (OnLoad p opened) w = QWasmIDBSettingsPrivate_onLoad p opened w"
| "step (OnError p) w = QWasmIDBSettingsPrivate_onError p w"
| "step (OnStore p) w = QWasmIDBSettingsPrivate_onStore p w"
| "step (OnCheck p exists) w = QWasmIDBSettingsPrivate_onCheck p exists w"
| "step (InitAccess p) w = QWasmIDBSettingsPrivate_initAccess p w"
| "step (Clear p) w = QWasmIDBSettingsPrivate_clear p w"
| "step (Sync p opened) w = QWasmIDBSettingsPrivate_sync p opened w"
| "step (Flush p opened) w = QWasmIDBSettingsPrivate_flush p opened w"
| "step (SyncToLocal p opened) w = QWasmIDBSettingsPrivate_syncToLocal p opened w"
| "step (LoadLocal p) w = QWasmIDBSettingsPrivate_loadLocal p w"

fun run :: "event list \<Rightarrow> process \<Rightarrow> fault + process" where
  "run [] w = Inr w"
| "run (e # es) w = (case step e w of Inl f \<Rightarrow> Inl f | Inr w' \<Rightarrow> run es w')"

definition statusOf :: "process \<Rightarrow> ptr \<Rightarrow> Status option" where
  "statusOf w p = map_option status (objects w p)"


text \<open>An event that constructs an instance at the address \<open>p\<close>.\<close>

fun constructsAt :: "ptr \<Rightarrow> event \<Rightarrow> bool" where
  "constructsAt p (Construct q scope organization application) = (q = p)"
| "constructsAt p e = False"

section \<open>Facts about the storage primitive and the loops\<close>

lemma getItem_setItem:
  "getItem (setItem k v st) k' = (if k' = k then Some v else getItem st k')"
  by (induction st) (auto simp: getItem_def)

lemma getItem_filter_key:
  "getItem (filter (\<lambda>e. P (fst e)) st) k = (if P k then getItem st k else None)"
  by (induction st) (auto simp: getItem_def)

lemma concat_map_skip:
  "concat (map (\<lambda>k. if Q k then [] else [k]) xs) = filter (\<lambda>k. \<not> Q k) xs"
  by (induction xs) auto

lemma storage_keys_map:
  "map (storageKey st) [0..<storageLength st] = map fst st"
  by (rule nth_equalityI) (simp_all add: storageKey_def storageLength_def)

lemma remove_collect_filter:
  "remove_collect f key st =
     filter (\<lambda>k. \<not> isEmpty (keyNameFromPrefixedStorageName f k)
                \<and> startsWith (chars (keyNameFromPrefixedStorageName f k)) key) (map fst st)"
proof -
  let ?Q = "\<lambda>k. isEmpty (keyNameFromPrefixedStorageName f k)
                \<or> \<not> startsWith (chars (keyNameFromPrefixedStorageName f k)) key"
  have "remove_collect f key st =
      concat (map (\<lambda>k. if ?Q k then [] else [k]) (map (storageKey st) [0..<storageLength st]))"
    by (simp add: remove_collect_def Let_def comp_def)
  then show ?thesis
    by (simp only: storage_keys_map concat_map_skip de_Morgan_disj not_not)
qed

lemma foldl_removeItem:
  "foldl (\<lambda>s child. removeItem child s) st cs = filter (\<lambda>e. fst e \<notin> set cs) st"
  by (induction cs arbitrary: st) (auto simp: removeItem_def intro: filter_cong)

lemma clear_loop_filter:
  "clear_loop (f # rest) ks st =
     Inr (filter (\<lambda>e. \<not> (fst e \<in> set ks \<and> \<not> isEmpty (keyNameFromPrefixedStorageName f (fst e)))) st)"
  by (induction ks arbitrary: st) (auto simp: first_def removeItem_def intro: filter_cong)

lemma keyName_starts_iff:
  "(\<not> isEmpty (keyNameFromPrefixedStorageName f k) \<and> startsWith (chars (keyNameFromPrefixedStorageName f k)) key
     \<or> k = f @ key) = prefix (f @ key) k"
  by (auto simp: keyNameFromPrefixedStorageName_def startsWith_def sliced_def isEmpty_def prefix_def)

lemma keyName_nonempty_iff:
  "(\<not> isEmpty (keyNameFromPrefixedStorageName f k)) = strict_prefix f k"
  by (auto simp: keyNameFromPrefixedStorageName_def startsWith_def sliced_def isEmpty_def
        prefix_def strict_prefix_def)

lemma replaceSeparator_empty: "(replaceSeparator s = []) = (s = [])"
  by (cases s) (auto simp: replaceSeparator_def)

lemma get_loop_fallbacks:
  "get_loop True parse ps key st =
     (case find (\<lambda>p. getItem st (p @ key) \<noteq> None) ps of
        None \<Rightarrow> None
      | Some p \<Rightarrow> map_option parse (getItem st (p @ key)))"
  by (induction ps) auto

lemma get_loop_no_fallbacks:
  "get_loop False parse ps key st =
     (case ps of [] \<Rightarrow> None | p # _ \<Rightarrow> map_option parse (getItem st (p @ key)))"
  by (cases ps) (auto split: option.splits)

lemma get_loop_by_spec:
  "get_loop fallbacks parse ps key st = get_by_spec fallbacks parse ps key st"
  by (cases fallbacks) (simp_all add: get_by_spec_def get_loop_fallbacks get_loop_no_fallbacks)

lemma ctor_prefixes_user:
  "organization \<noteq> [] \<Longrightarrow> application \<noteq> [] \<Longrightarrow>
   m_keyPrefixes (QWasmLocalStorageSettingsPrivate_ctor UserScope organization application) =
     [''qt-v0-'' @ replaceSeparator organization @ ''-'' @ replaceSeparator application @ ''-'',
      ''qt-v0-'' @ replaceSeparator organization @ ''-all-apps-'',
      ''qt-v0-'' @ replaceSeparator organization @ ''-'' @ replaceSeparator application @ ''-sys-tem-'',
      ''qt-v0-'' @ replaceSeparator organization @ ''-all-apps-sys-tem-'']"
  by (simp add: QWasmLocalStorageSettingsPrivate_ctor_def Let_def replaceSeparator_empty)

lemma ctor_prefixes_system:
  "organization \<noteq> [] \<Longrightarrow> application \<noteq> [] \<Longrightarrow>
   m_keyPrefixes (QWasmLocalStorageSettingsPrivate_ctor SystemScope organization application) =
     [''qt-v0-'' @ replaceSeparator organization @ ''-'' @ replaceSeparator application @ ''-sys-tem-'',
      ''qt-v0-'' @ replaceSeparator organization @ ''-all-apps-sys-tem-'']"
  by (simp add: QWasmLocalStorageSettingsPrivate_ctor_def Let_def replaceSeparator_empty)

lemma ctor_prefixes_hd:
  "organization \<noteq> [] \<Longrightarrow>
   \<exists>rest. m_keyPrefixes (QWasmLocalStorageSettingsPrivate_ctor scope organization application)
     = mostSpecificPrefix scope organization application # rest"
  by (cases scope)
     (simp_all add: QWasmLocalStorageSettingsPrivate_ctor_def Let_def replaceSeparator_empty
        mostSpecificPrefix_def)

lemma set_first_only:
  "m_keyPrefixes this = f # rest \<Longrightarrow>
   QWasmLocalStorageSettingsPrivate_set this render key v st = Inr (setItem (f @ key) (render v) st)"
  by (simp add: QWasmLocalStorageSettingsPrivate_set_def first_def)

lemma remove_filter:
  "m_keyPrefixes this = f # rest \<Longrightarrow>
   QWasmLocalStorageSettingsPrivate_remove this key st =
     Inr (filter (\<lambda>e. \<not> (fst e = f @ key
                         \<or> (\<not> isEmpty (keyNameFromPrefixedStorageName f (fst e))
                             \<and> startsWith (chars (keyNameFromPrefixedStorageName f (fst e))) key))) st)"
proof -
  assume ps: "m_keyPrefixes this = f # rest"
  have "QWasmLocalStorageSettingsPrivate_remove this key st =
      Inr (filter (\<lambda>e. fst e \<notin> set ((f @ key) # remove_collect f key st)) st)"
    using ps
    by (simp only: QWasmLocalStorageSettingsPrivate_remove_def first_def Let_def
          foldl_removeItem list.case sum.case)
  also have "filter (\<lambda>e. fst e \<notin> set ((f @ key) # remove_collect f key st)) st
      = filter (\<lambda>e. \<not> (fst e = f @ key
                         \<or> (\<not> isEmpty (keyNameFromPrefixedStorageName f (fst e))
                             \<and> startsWith (chars (keyNameFromPrefixedStorageName f (fst e))) key))) st"
    by (rule filter_cong) (auto simp: remove_collect_filter)
  finally show ?thesis .
qed

lemma clear_filter:
  "m_keyPrefixes this = f # rest \<Longrightarrow>
   QWasmLocalStorageSettingsPrivate_clear this st =
     Inr (filter (\<lambda>e. isEmpty (keyNameFromPrefixedStorageName f (fst e))) st)"
  by (auto simp: QWasmLocalStorageSettingsPrivate_clear_def clear_loop_filter storage_keys_map
        intro!: filter_cong)

lemma remove_prefix_filter:
  assumes "m_keyPrefixes this = f # rest"
  shows "QWasmLocalStorageSettingsPrivate_remove this key st =
     Inr (filter (\<lambda>e. \<not> prefix (f @ key) (fst e)) st)"
proof -
  have "filter (\<lambda>e. \<not> (fst e = f @ key
                         \<or> (\<not> isEmpty (keyNameFromPrefixedStorageName f (fst e))
                             \<and> startsWith (chars (keyNameFromPrefixedStorageName f (fst e))) key))) st
      = filter (\<lambda>e. \<not> prefix (f @ key) (fst e)) st"
    by (rule filter_cong) (use keyName_starts_iff in auto)
  with remove_filter [OF assms] show ?thesis by simp
qed

lemma clear_prefix_filter:
  assumes "m_keyPrefixes this = f # rest"
  shows "QWasmLocalStorageSettingsPrivate_clear this st =
     Inr (filter (\<lambda>e. \<not> strict_prefix f (fst e)) st)"
  using clear_filter [OF assms] by (simp add: keyName_nonempty_iff [symmetric])

section \<open>Facts about the IndexedDB backend\<close>

lemmas idb_defs =
  QWasmIDBSettingsPrivate_get_def QWasmIDBSettingsPrivate_setReady_def
  QWasmIDBSettingsPrivate_loadLocal_def QWasmIDBSettingsPrivate_onLoad_def
  QWasmIDBSettingsPrivate_onError_def QWasmIDBSettingsPrivate_onStore_def
  QWasmIDBSettingsPrivate_onCheck_def QWasmIDBSettingsPrivate_ctor_def
  QWasmIDBSettingsPrivate_dtor_def QWasmIDBSettingsPrivate_initAccess_def
  QWasmIDBSettingsPrivate_clear_def QWasmIDBSettingsPrivate_sync_def
  QWasmIDBSettingsPrivate_flush_def QWasmIDBSettingsPrivate_syncToLocal_def
  onObject_def delegate_def issue_def setStatus_def

lemma step_isReadReady:
  "isReadReady w \<Longrightarrow> step e w = Inr w' \<Longrightarrow> isReadReady w'"
  by (cases e) (auto simp: idb_defs Let_def split: option.splits sum.splits if_splits)

lemma run_isReadReady:
  "isReadReady w \<Longrightarrow> run es w = Inr w' \<Longrightarrow> isReadReady w'"
proof (induction es arbitrary: w)
  case Nil
  then show ?case by simp
next
  case (Cons e es)
  then show ?case
    by (auto split: sum.splits dest: step_isReadReady)
qed

lemma setReady_opens:
  "objects w p = Some obj \<Longrightarrow>
   \<exists>w'. QWasmIDBSettingsPrivate_setReady p w = Inr w' \<and> isReadReady w'
        \<and> statusOf w' p = Some NoError"
  by (simp add: idb_defs statusOf_def)

lemma onCheck_absent_opens:
  "p \<in> set (liveSettings w) \<Longrightarrow> objects w p = Some obj \<Longrightarrow>
   \<exists>w'. QWasmIDBSettingsPrivate_onCheck p 0 w = Inr w' \<and> isReadReady w'"
  by (simp add: idb_defs)

lemma onLoad_opened_opens:
  "p \<in> set (liveSettings w) \<Longrightarrow> objects w p = Some obj \<Longrightarrow>
   \<exists>w'. QWasmIDBSettingsPrivate_onLoad p True w = Inr w' \<and> isReadReady w'"
  by (simp add: idb_defs)

lemma ctor_gate_and_status:
  "isReadReady (QWasmIDBSettingsPrivate_ctor q scope organization application w) = isReadReady w
   \<and> statusOf (QWasmIDBSettingsPrivate_ctor q scope organization application w) q
       = Some AccessError"
  by (simp add: idb_defs statusOf_def Let_def)



lemma miss_onLoad:
  "userData \<notin> set (liveSettings w) \<Longrightarrow> QWasmIDBSettingsPrivate_onLoad userData opened w = Inr w"
  by (simp add: QWasmIDBSettingsPrivate_onLoad_def QWasmIDBSettingsPrivate_get_def)

lemma miss_onError:
  "userData \<notin> set (liveSettings w) \<Longrightarrow> QWasmIDBSettingsPrivate_onError userData w = Inr w"
  by (simp add: QWasmIDBSettingsPrivate_onError_def QWasmIDBSettingsPrivate_get_def)

lemma miss_onStore:
  "userData \<notin> set (liveSettings w) \<Longrightarrow> QWasmIDBSettingsPrivate_onStore userData w = Inr w"
  by (simp add: QWasmIDBSettingsPrivate_onStore_def QWasmIDBSettingsPrivate_get_def)

lemma miss_onCheck:
  "userData \<notin> set (liveSettings w) \<Longrightarrow> QWasmIDBSettingsPrivate_onCheck userData exists w = Inr w"
  by (simp add: QWasmIDBSettingsPrivate_onCheck_def QWasmIDBSettingsPrivate_get_def)

lemma dtor_deregisters:
  "QWasmIDBSettingsPrivate_dtor p w = Inr w' \<Longrightarrow> p \<notin> set (liveSettings w') \<and> objects w' p = None"
  by (auto simp: QWasmIDBSettingsPrivate_dtor_def split: option.splits)

lemma step_keeps_miss:
  "p \<notin> set (liveSettings w) \<Longrightarrow> step e w = Inr w' \<Longrightarrow> \<not> constructsAt p e \<Longrightarrow>
   p \<notin> set (liveSettings w')"
  by (cases e) (auto simp: idb_defs Let_def split: option.splits sum.splits if_splits)

lemma run_keeps_miss:
  "p \<notin> set (liveSettings w) \<Longrightarrow> run es w = Inr w' \<Longrightarrow> \<forall>e \<in> set es. \<not> constructsAt p e \<Longrightarrow>
   p \<notin> set (liveSettings w')"
proof (induction es arbitrary: w)
  case Nil
  then show ?case by simp
next
  case (Cons e es)
  from Cons.prems(2) obtain w1 where s: "step e w = Inr w1" and r: "run es w1 = Inr w'"
    by (auto split: sum.splits)
  from Cons.prems(3) have ne: "\<not> constructsAt p e" and nes: "\<forall>e \<in> set es. \<not> constructsAt p e"
    by simp_all
  from Cons.prems(1) s ne have "p \<notin> set (liveSettings w1)"
    by (rule step_keeps_miss)
  then show ?case
    using r nes by (rule Cons.IH)
qed

section \<open>The properties of the specification\<close>

text \<open>
  \<^bold>\<open>C1\<close> (as the code has it). The readiness gate \<^verbatim>\<open>isReadReady\<close> is one flag of the
  whole process, not a member of an instance. \<^verbatim>\<open>setReady\<close> of any instance sets it, and
  so do the completions that reach \<^verbatim>\<open>setReady\<close> (\<^verbatim>\<open>onCheck\<close> reporting no file, \<^verbatim>\<open>onLoad\<close>
  whose file opens). It only moves forward: once it is set, no construction,
  destruction, operation or completion of any instance resets it. \<^verbatim>\<open>get\<close> and
  \<^verbatim>\<open>isWritable\<close> of every instance answer through this flag. The constructor leaves the
  flag as it is and gives the new instance the status \<^verbatim>\<open>AccessError\<close>: when the flag is
  set, an instance that was just constructed has an open gate.
\<close>

theorem isReadReady_shared_and_monotone:
  "(isReadReady w \<and> run es w = Inr w' \<longrightarrow> isReadReady w')
   \<and> (objects w p = Some obj \<longrightarrow>
        (\<exists>w1. QWasmIDBSettingsPrivate_setReady p w = Inr w1 \<and> isReadReady w1))
   \<and> (p \<in> set (liveSettings w) \<and> objects w p = Some obj \<longrightarrow>
        (\<exists>w1. QWasmIDBSettingsPrivate_onCheck p 0 w = Inr w1 \<and> isReadReady w1)
      \<and> (\<exists>w1. QWasmIDBSettingsPrivate_onLoad p True w = Inr w1 \<and> isReadReady w1))
   \<and> QWasmIDBSettingsPrivate_get_key q confFileGet key w
       = (if isReadReady w then confFileGet key else None)
   \<and> QWasmIDBSettingsPrivate_isWritable q confFileWritable w
       = (isReadReady w \<and> confFileWritable)
   \<and> isReadReady (QWasmIDBSettingsPrivate_ctor q scope organization application w) = isReadReady w
   \<and> statusOf (QWasmIDBSettingsPrivate_ctor q scope organization application w) q
       = Some AccessError
   \<and> (isReadReady w \<longrightarrow>
        QWasmIDBSettingsPrivate_get_key q confFileGet key
          (QWasmIDBSettingsPrivate_ctor q scope organization application w) = confFileGet key
      \<and> QWasmIDBSettingsPrivate_isWritable q True
          (QWasmIDBSettingsPrivate_ctor q scope organization application w))"
proof -
  have mono: "isReadReady w \<and> run es w = Inr w' \<longrightarrow> isReadReady w'"
    using run_isReadReady [of w es w'] by blast
  have sr: "objects w p = Some obj \<longrightarrow>
        (\<exists>w1. QWasmIDBSettingsPrivate_setReady p w = Inr w1 \<and> isReadReady w1)"
    using setReady_opens [of w p obj] by blast
  have cb: "p \<in> set (liveSettings w) \<and> objects w p = Some obj \<longrightarrow>
        (\<exists>w1. QWasmIDBSettingsPrivate_onCheck p 0 w = Inr w1 \<and> isReadReady w1)
      \<and> (\<exists>w1. QWasmIDBSettingsPrivate_onLoad p True w = Inr w1 \<and> isReadReady w1)"
    using onCheck_absent_opens [of p w obj] onLoad_opened_opens [of p w obj] by blast
  have g: "QWasmIDBSettingsPrivate_get_key q confFileGet key w
       = (if isReadReady w then confFileGet key else None)"
    by (simp add: QWasmIDBSettingsPrivate_get_key_def)
  have iw: "QWasmIDBSettingsPrivate_isWritable q confFileWritable w
       = (isReadReady w \<and> confFileWritable)"
    by (simp add: QWasmIDBSettingsPrivate_isWritable_def)
  note c = ctor_gate_and_status [of q scope organization application w]
  have fresh: "isReadReady w \<longrightarrow>
        QWasmIDBSettingsPrivate_get_key q confFileGet key
          (QWasmIDBSettingsPrivate_ctor q scope organization application w) = confFileGet key
      \<and> QWasmIDBSettingsPrivate_isWritable q True
          (QWasmIDBSettingsPrivate_ctor q scope organization application w)"
    using c by (simp add: QWasmIDBSettingsPrivate_get_key_def QWasmIDBSettingsPrivate_isWritable_def)
  from mono sr cb g iw c fresh show ?thesis by (intro conjI) blast+
qed

theorem isReadReady_shared_and_monotone_witness:
  "(\<exists>w. QWasmIDBSettingsPrivate_onCheck 1 0
            (QWasmIDBSettingsPrivate_ctor 1 UserScope ''Acme'' ''Tool'' initialProcess) = Inr w
        \<and> isReadReady w
        \<and> (\<exists>w'. run [OnError 1, Sync 1 True, Destroy 1] w = Inr w' \<and> isReadReady w')
        \<and> QWasmIDBSettingsPrivate_get_key 2 (\<lambda>k. Some ''v'') ''x''
             (QWasmIDBSettingsPrivate_ctor 2 UserScope ''Acme'' ''Other'' w) = Some ''v''
        \<and> QWasmIDBSettingsPrivate_isWritable 2 True
             (QWasmIDBSettingsPrivate_ctor 2 UserScope ''Acme'' ''Other'' w)
        \<and> statusOf (QWasmIDBSettingsPrivate_ctor 2 UserScope ''Acme'' ''Other'' w) 2
             = Some AccessError)
   \<and> QWasmIDBSettingsPrivate_get_key 1 (\<lambda>k. Some ''v'') ''x''
        (QWasmIDBSettingsPrivate_ctor 1 UserScope ''Acme'' ''Tool'' initialProcess) = None"
proof -
  let ?w0 = "QWasmIDBSettingsPrivate_ctor 1 UserScope ''Acme'' ''Tool'' initialProcess"
  let ?obj = "\<lparr>status = AccessError, databaseName = ''Acme'', id' = ''Tool'', confFileCalls = []\<rparr>"
  have live: "1 \<in> set (liveSettings ?w0) \<and> objects ?w0 1 = Some ?obj"
    by (simp add: idb_defs initialProcess_def Let_def)
  have cold: "\<not> isReadReady ?w0"
    by (simp add: idb_defs initialProcess_def Let_def)
  note t0 = isReadReady_shared_and_monotone [where w = ?w0 and p = 1 and obj = ?obj and q = 1
      and confFileGet = "\<lambda>k. Some ''v''" and key = "''x''"]
  from t0 live obtain w where c: "QWasmIDBSettingsPrivate_onCheck 1 0 ?w0 = Inr w"
    and rdy: "isReadReady w"
    by blast
  from t0 cold have g0: "QWasmIDBSettingsPrivate_get_key 1 (\<lambda>k. Some ''v'') ''x'' ?w0 = None"
    by simp
  obtain w' where r: "run [OnError 1, Sync 1 True, Destroy 1] w = Inr w'"
    using c by (auto simp: idb_defs initialProcess_def Let_def)
  note t1 = isReadReady_shared_and_monotone [where w = w and es = "[OnError 1, Sync 1 True, Destroy 1]"
      and w' = w' and q = 2 and confFileGet = "\<lambda>k. Some ''v''" and key = "''x''"
      and scope = UserScope and organization = "''Acme''" and application = "''Other''"]
  from t1 rdy r have m: "isReadReady w'" by blast
  from t1 rdy have fresh:
    "QWasmIDBSettingsPrivate_get_key 2 (\<lambda>k. Some ''v'') ''x''
        (QWasmIDBSettingsPrivate_ctor 2 UserScope ''Acme'' ''Other'' w) = Some ''v''
     \<and> QWasmIDBSettingsPrivate_isWritable 2 True
        (QWasmIDBSettingsPrivate_ctor 2 UserScope ''Acme'' ''Other'' w)
     \<and> statusOf (QWasmIDBSettingsPrivate_ctor 2 UserScope ''Acme'' ''Other'' w) 2 = Some AccessError"
    by blast
  from c rdy r m fresh g0 show ?thesis by blast
qed

text \<open>
  \<^bold>\<open>C1\<close>, the statement as written fails: after a first instance became ready, a second
  instance that was just constructed (status \<^verbatim>\<open>AccessError\<close>, its engine never
  initialised) already has an open gate: its \<^verbatim>\<open>get\<close> delegates to the file engine and
  its \<^verbatim>\<open>isWritable\<close> answers true.
\<close>

theorem second_instance_gate_open:
  "\<exists>w. run [Construct 1 UserScope ''Acme'' ''Tool'', OnCheck 1 0,
             Construct 2 UserScope ''Acme'' ''Other''] initialProcess = Inr w
       \<and> isReadReady w
       \<and> statusOf w 2 = Some AccessError
       \<and> confFileCalls (the (objects w 2)) = []
       \<and> QWasmIDBSettingsPrivate_get_key 2 (\<lambda>k. Some ''v'') ''x'' w = Some ''v''
       \<and> QWasmIDBSettingsPrivate_isWritable 2 True w"
  by (simp add: idb_defs initialProcess_def Let_def statusOf_def
        QWasmIDBSettingsPrivate_get_key_def QWasmIDBSettingsPrivate_isWritable_def)




text \<open>
  \<^bold>\<open>C3\<close> (as the code has it). Each of the four completion handlers looks its
  \<^verbatim>\<open>userData\<close> up in \<^verbatim>\<open>liveSettings\<close> first; on a miss it returns with the process
  unchanged and without touching the object (no fault, whether or not an object is
  allocated there). The destructor removes the instance from \<^verbatim>\<open>liveSettings\<close>, and the
  address stays out of it over every later event that does not construct an instance
  at that same address: until then a completion that fires after the destruction has no
  effect.
\<close>

theorem completion_after_destruction_discarded:
  "(userData \<notin> set (liveSettings w) \<longrightarrow>
        QWasmIDBSettingsPrivate_onLoad userData opened w = Inr w
      \<and> QWasmIDBSettingsPrivate_onError userData w = Inr w
      \<and> QWasmIDBSettingsPrivate_onStore userData w = Inr w
      \<and> QWasmIDBSettingsPrivate_onCheck userData exists w = Inr w)
   \<and> (QWasmIDBSettingsPrivate_dtor userData w = Inr w' \<and> run es w' = Inr w''
        \<and> (\<forall>e \<in> set es. \<not> constructsAt userData e) \<longrightarrow>
        userData \<notin> set (liveSettings w'')
      \<and> QWasmIDBSettingsPrivate_onLoad userData opened w'' = Inr w''
      \<and> QWasmIDBSettingsPrivate_onError userData w'' = Inr w''
      \<and> QWasmIDBSettingsPrivate_onStore userData w'' = Inr w''
      \<and> QWasmIDBSettingsPrivate_onCheck userData exists w'' = Inr w'')"
proof -
  have miss: "QWasmIDBSettingsPrivate_onLoad userData opened v = Inr v
      \<and> QWasmIDBSettingsPrivate_onError userData v = Inr v
      \<and> QWasmIDBSettingsPrivate_onStore userData v = Inr v
      \<and> QWasmIDBSettingsPrivate_onCheck userData exists v = Inr v"
    if "userData \<notin> set (liveSettings v)" for v
    using that by (simp add: miss_onLoad miss_onError miss_onStore miss_onCheck)
  have later: "userData \<notin> set (liveSettings w'')"
    if "QWasmIDBSettingsPrivate_dtor userData w = Inr w'" and "run es w' = Inr w''"
      and "\<forall>e \<in> set es. \<not> constructsAt userData e"
    using that dtor_deregisters [of userData w w'] run_keeps_miss [of userData w' es w'']
    by blast
  from miss [of w] miss [of w''] later show ?thesis by blast
qed

theorem completion_after_destruction_discarded_witness:
  "7 \<notin> set (liveSettings (QWasmIDBSettingsPrivate_ctor 1 UserScope ''Acme'' ''Tool'' initialProcess))
   \<and> QWasmIDBSettingsPrivate_onStore 7
         (QWasmIDBSettingsPrivate_ctor 1 UserScope ''Acme'' ''Tool'' initialProcess)
       = Inr (QWasmIDBSettingsPrivate_ctor 1 UserScope ''Acme'' ''Tool'' initialProcess)
   \<and> (\<exists>w' w''. QWasmIDBSettingsPrivate_dtor 1
           (QWasmIDBSettingsPrivate_ctor 1 UserScope ''Acme'' ''Tool'' initialProcess) = Inr w'
      \<and> run [Construct 2 UserScope ''Acme'' ''Other'', Sync 2 True] w' = Inr w''
      \<and> requests w'' = [AsyncExists 1, AsyncExists 2, AsyncStore 2]
      \<and> 1 \<notin> set (liveSettings w'')
      \<and> QWasmIDBSettingsPrivate_onCheck 1 0 w'' = Inr w''
      \<and> QWasmIDBSettingsPrivate_onError 1 w'' = Inr w''
      \<and> QWasmIDBSettingsPrivate_onLoad 1 True w'' = Inr w''
      \<and> QWasmIDBSettingsPrivate_onStore 1 w'' = Inr w'')"
proof -
  let ?w = "QWasmIDBSettingsPrivate_ctor 1 UserScope ''Acme'' ''Tool'' initialProcess"
  let ?es = "[Construct 2 UserScope ''Acme'' ''Other'', Sync 2 True]"
  obtain w' where d: "QWasmIDBSettingsPrivate_dtor 1 ?w = Inr w'"
    and w': "w' = \<lparr>liveSettings = [], isReadReady = False, objects = Map.empty,
                    requests = [AsyncExists 1]\<rparr>"
    by (simp add: idb_defs initialProcess_def Let_def)
  obtain w'' where r: "run ?es w' = Inr w''"
    and rq: "requests w'' = [AsyncExists 1, AsyncExists 2, AsyncStore 2]"
    by (simp add: w' idb_defs Let_def)
  have nc: "\<forall>e \<in> set ?es. \<not> constructsAt 1 e"
    by simp
  have m: "7 \<notin> set (liveSettings ?w)"
    by (simp add: idb_defs initialProcess_def Let_def)
  from m completion_after_destruction_discarded
    [where userData = 7 and w = ?w and opened = True and exists = 0, THEN conjunct1]
  have a: "QWasmIDBSettingsPrivate_onStore 7 ?w = Inr ?w"
    by simp
  from d r nc completion_after_destruction_discarded
    [where userData = 1 and w = ?w and w' = w' and w'' = w'' and es = ?es
       and opened = True and exists = 0, THEN conjunct2]
  have b: "1 \<notin> set (liveSettings w'')
      \<and> QWasmIDBSettingsPrivate_onLoad 1 True w'' = Inr w''
      \<and> QWasmIDBSettingsPrivate_onError 1 w'' = Inr w''
      \<and> QWasmIDBSettingsPrivate_onStore 1 w'' = Inr w''
      \<and> QWasmIDBSettingsPrivate_onCheck 1 0 w'' = Inr w''"
    by blast
  from m a d r rq b show ?thesis by blast
qed

text \<open>
  \<^bold>\<open>C3\<close>, the statement as written fails: the identity of an instance is its address.
  An instance requests a delete and is destroyed, a new instance is constructed at the
  same address, and the completion of the old request then finds the address in
  \<^verbatim>\<open>liveSettings\<close> and sets the status of the new instance to \<^verbatim>\<open>NoError\<close>.
\<close>

theorem stale_completion_reaches_new_instance:
  "\<exists>w w'. run [Construct 1 UserScope ''Acme'' ''Tool'', Clear 1, Destroy 1,
               Construct 1 UserScope ''Acme'' ''Other''] initialProcess = Inr w
       \<and> requests w = [AsyncExists 1, AsyncDelete 1, AsyncExists 1]
       \<and> map_option id' (objects w 1) = Some ''Other''
       \<and> statusOf w 1 = Some AccessError
       \<and> QWasmIDBSettingsPrivate_onStore 1 w = Inr w'
       \<and> statusOf w' 1 = Some NoError"
  by (simp add: idb_defs initialProcess_def Let_def statusOf_def)

text \<open>
  \<^bold>\<open>C4\<close> (as the code has it). \<^verbatim>\<open>remove(key)\<close> deletes exactly the stored entries whose
  physical name starts with \<^verbatim>\<open>prefix[0] + key\<close>: the entry of the key itself and every
  entry whose key slice is a string extension of \<^verbatim>\<open>key\<close>, and keeps all others in their
  order. The names to delete are collected from the storage as it was before the first
  deletion.
\<close>

theorem remove_deletes_every_extension:
  assumes "m_keyPrefixes this = f # rest"
  shows "QWasmLocalStorageSettingsPrivate_remove this key st =
     Inr (filter (\<lambda>e. \<not> startsWith (fst e) (f @ key)) st)
   \<and> remove_collect f key st =
       filter (\<lambda>k. startsWith k (f @ key) \<and> k \<noteq> f) (map fst st)"
proof -
  have "remove_collect f key st = filter (\<lambda>k. startsWith k (f @ key) \<and> k \<noteq> f) (map fst st)"
    unfolding remove_collect_filter
    by (rule filter_cong)
       (auto simp: keyNameFromPrefixedStorageName_def startsWith_def sliced_def isEmpty_def prefix_def)
  with remove_prefix_filter [OF assms] show ?thesis by (simp add: startsWith_def)
qed

theorem remove_deletes_every_extension_witness:
  "m_keyPrefixes (QWasmLocalStorageSettingsPrivate_ctor UserScope ''Acme'' ''Tool'')
     = ''qt-v0-Acme-Tool-'' # [''qt-v0-Acme-all-apps-'', ''qt-v0-Acme-Tool-sys-tem-'',
         ''qt-v0-Acme-all-apps-sys-tem-'']
   \<and> QWasmLocalStorageSettingsPrivate_remove
       (QWasmLocalStorageSettingsPrivate_ctor UserScope ''Acme'' ''Tool'') ''a/b''
       [(''qt-v0-Acme-Tool-a/b'', ''1''), (''qt-v0-Acme-Tool-a/x'', ''3''),
        (''qt-v0-Acme-Tool-a/b/c'', ''2'')]
     = Inr [(''qt-v0-Acme-Tool-a/x'', ''3'')]"
proof -
  have ps: "m_keyPrefixes (QWasmLocalStorageSettingsPrivate_ctor UserScope ''Acme'' ''Tool'')
     = ''qt-v0-Acme-Tool-'' # [''qt-v0-Acme-all-apps-'', ''qt-v0-Acme-Tool-sys-tem-'',
         ''qt-v0-Acme-all-apps-sys-tem-'']"
    by (simp add: QWasmLocalStorageSettingsPrivate_ctor_def Let_def replaceSeparator_def)
  show ?thesis
    using ps remove_deletes_every_extension [OF ps, of "''a/b''"
      "[(''qt-v0-Acme-Tool-a/b'', ''1''), (''qt-v0-Acme-Tool-a/x'', ''3''),
        (''qt-v0-Acme-Tool-a/b/c'', ''2'')]"]
    by (simp add: startsWith_def)
qed

text \<open>
  \<^bold>\<open>C4\<close>, the statement as written fails: \<^verbatim>\<open>abc\<close> is no child path of \<^verbatim>\<open>ab\<close>, yet
  removing \<^verbatim>\<open>ab\<close> deletes the entry of \<^verbatim>\<open>abc\<close> too.
\<close>

theorem remove_sibling_counterexample:
  "\<not> childPath ''ab'' ''abc''
   \<and> QWasmLocalStorageSettingsPrivate_remove
       (QWasmLocalStorageSettingsPrivate_ctor UserScope ''Acme'' ''Tool'') ''ab''
       [(''qt-v0-Acme-Tool-ab'', ''1''), (''qt-v0-Acme-Tool-abc'', ''2'')]
     = Inr []"
  by (simp add: childPath_def QWasmLocalStorageSettingsPrivate_remove_def
        QWasmLocalStorageSettingsPrivate_ctor_def Let_def replaceSeparator_def first_def
        remove_collect_def storageKey_def storageLength_def keyNameFromPrefixedStorageName_def
        startsWith_def sliced_def isEmpty_def removeItem_def upt_rec)

text \<open>
  \<^bold>\<open>C5\<close>. \<^verbatim>\<open>get(key)\<close> walks the prefix list in order and returns the parsed value of
  the first \<^verbatim>\<open>prefix + key\<close> that is present; with fallbacks disabled only the first prefix
  is consulted; when nothing is found the result is absent.
\<close>

theorem get_first_hit:
  "QWasmLocalStorageSettingsPrivate_get this fallbacks parse key st
     = get_by_spec fallbacks parse (m_keyPrefixes this) key st"
  by (simp add: QWasmLocalStorageSettingsPrivate_get_def get_loop_by_spec)

theorem get_first_hit_witness:
  "QWasmLocalStorageSettingsPrivate_get (QWasmLocalStorageSettingsPrivate_ctor UserScope ''Acme'' ''Tool'')
      True (\<lambda>s. s) ''x'' [(''qt-v0-Acme-all-apps-x'', ''2''), (''qt-v0-Acme-Tool-x'', ''1'')] = Some ''1''
   \<and> QWasmLocalStorageSettingsPrivate_get (QWasmLocalStorageSettingsPrivate_ctor UserScope ''Acme'' ''Tool'')
      False (\<lambda>s. s) ''x'' [(''qt-v0-Acme-all-apps-x'', ''2'')] = None"
  by (simp add: get_first_hit get_by_spec_def QWasmLocalStorageSettingsPrivate_ctor_def
      replaceSeparator_def setStatus_def getItem_def Let_def)

text \<open>
  \<^bold>\<open>C6\<close> (as the code has it). For a non-empty organization and a non-empty application
  the prefix list is, for the user scope, the application prefix, the all-applications
  prefix and then their two \<^verbatim>\<open>sys-tem\<close> variants, and for the system scope the two
  \<^verbatim>\<open>sys-tem\<close> variants only, every \<^verbatim>\<open>-\<close> of the names doubled. The writing operations use
  the first prefix only: \<^verbatim>\<open>set\<close> writes under it, and \<^verbatim>\<open>remove\<close> and \<^verbatim>\<open>clear\<close> do what they
  do on an instance that has no other prefix.
\<close>

theorem keyPrefixes_by_scope:
  assumes "organization \<noteq> []" and "application \<noteq> []"
  shows "m_keyPrefixes (QWasmLocalStorageSettingsPrivate_ctor UserScope organization application) =
     [''qt-v0-'' @ replaceSeparator organization @ ''-'' @ replaceSeparator application @ ''-'',
      ''qt-v0-'' @ replaceSeparator organization @ ''-all-apps-'',
      ''qt-v0-'' @ replaceSeparator organization @ ''-'' @ replaceSeparator application @ ''-sys-tem-'',
      ''qt-v0-'' @ replaceSeparator organization @ ''-all-apps-sys-tem-'']
    \<and> m_keyPrefixes (QWasmLocalStorageSettingsPrivate_ctor SystemScope organization application) =
     [''qt-v0-'' @ replaceSeparator organization @ ''-'' @ replaceSeparator application @ ''-sys-tem-'',
      ''qt-v0-'' @ replaceSeparator organization @ ''-all-apps-sys-tem-'']
    \<and> (\<exists>f rest. m_keyPrefixes (QWasmLocalStorageSettingsPrivate_ctor scope organization application) = f # rest
      \<and> QWasmLocalStorageSettingsPrivate_set
           (QWasmLocalStorageSettingsPrivate_ctor scope organization application) render key v st
          = Inr (setItem (f @ key) (render v) st)
      \<and> QWasmLocalStorageSettingsPrivate_remove
           (QWasmLocalStorageSettingsPrivate_ctor scope organization application) key st
          = QWasmLocalStorageSettingsPrivate_remove \<lparr>status = NoError, m_keyPrefixes = [f]\<rparr> key st
      \<and> QWasmLocalStorageSettingsPrivate_clear
           (QWasmLocalStorageSettingsPrivate_ctor scope organization application) st
          = QWasmLocalStorageSettingsPrivate_clear \<lparr>status = NoError, m_keyPrefixes = [f]\<rparr> st)"
proof -
  let ?b = "QWasmLocalStorageSettingsPrivate_ctor scope organization application"
  from ctor_prefixes_hd [OF assms(1)] obtain f rest where ps: "m_keyPrefixes ?b = f # rest"
    by blast
  have ps1: "m_keyPrefixes \<lparr>status = NoError, m_keyPrefixes = [f]\<rparr> = f # []" by simp
  have "QWasmLocalStorageSettingsPrivate_set ?b render key v st
          = Inr (setItem (f @ key) (render v) st)"
    using ps by (rule set_first_only)
  moreover have "QWasmLocalStorageSettingsPrivate_remove ?b key st
          = QWasmLocalStorageSettingsPrivate_remove \<lparr>status = NoError, m_keyPrefixes = [f]\<rparr> key st"
    by (simp only: remove_filter [OF ps] remove_filter [OF ps1])
  moreover have "QWasmLocalStorageSettingsPrivate_clear ?b st
          = QWasmLocalStorageSettingsPrivate_clear \<lparr>status = NoError, m_keyPrefixes = [f]\<rparr> st"
    by (simp only: clear_filter [OF ps] clear_filter [OF ps1])
  ultimately show ?thesis
    using ps ctor_prefixes_user [OF assms] ctor_prefixes_system [OF assms] by blast
qed

theorem keyPrefixes_by_scope_witness:
  "''Acme'' \<noteq> [] \<and> ''To-ol'' \<noteq> []
   \<and> m_keyPrefixes (QWasmLocalStorageSettingsPrivate_ctor UserScope ''Acme'' ''To-ol'') =
       [''qt-v0-Acme-To--ol-'', ''qt-v0-Acme-all-apps-'',
        ''qt-v0-Acme-To--ol-sys-tem-'', ''qt-v0-Acme-all-apps-sys-tem-'']
   \<and> m_keyPrefixes (QWasmLocalStorageSettingsPrivate_ctor SystemScope ''Acme'' ''To-ol'') =
       [''qt-v0-Acme-To--ol-sys-tem-'', ''qt-v0-Acme-all-apps-sys-tem-'']"
  using keyPrefixes_by_scope [where organization = "''Acme''" and application = "''To-ol''"
      and scope = UserScope and render = "\<lambda>s. s" and key = "''x''" and v = "''1''" and st = "[]"]
  by (simp add: replaceSeparator_def)

text \<open>
  \<^bold>\<open>C6\<close>, the statement as written fails: for the user scope the list has four
  prefixes, not two, and for the system scope it has the two \<^verbatim>\<open>sys-tem\<close> prefixes alone.
\<close>

theorem keyPrefixes_user_scope_counterexample:
  "m_keyPrefixes (QWasmLocalStorageSettingsPrivate_ctor UserScope ''Acme'' ''Tool'')
     \<noteq> [''qt-v0-Acme-Tool-'', ''qt-v0-Acme-all-apps-'']
   \<and> m_keyPrefixes (QWasmLocalStorageSettingsPrivate_ctor UserScope ''Acme'' ''Tool'')
     = [''qt-v0-Acme-Tool-'', ''qt-v0-Acme-all-apps-'',
        ''qt-v0-Acme-Tool-sys-tem-'', ''qt-v0-Acme-all-apps-sys-tem-'']
   \<and> m_keyPrefixes (QWasmLocalStorageSettingsPrivate_ctor SystemScope ''Acme'' ''Tool'')
     = [''qt-v0-Acme-Tool-sys-tem-'', ''qt-v0-Acme-all-apps-sys-tem-'']"
  by (simp add: QWasmLocalStorageSettingsPrivate_ctor_def Let_def replaceSeparator_def)

text \<open>
  \<^bold>\<open>C7\<close>. For a non-empty organization the prefix list is not empty and starts with the
  most specific applicable prefix; \<^verbatim>\<open>set(key, value)\<close> succeeds and \<^verbatim>\<open>get(key)\<close> on the
  storage it leaves returns what the parser makes of the rendered value, which is the
  value written whenever the renderer and the parser of the base class round-trip it.
\<close>

theorem set_then_get_roundtrip:
  assumes "organization \<noteq> []"
  shows "m_keyPrefixes (QWasmLocalStorageSettingsPrivate_ctor scope organization application) \<noteq> []
    \<and> hd (m_keyPrefixes (QWasmLocalStorageSettingsPrivate_ctor scope organization application))
        = mostSpecificPrefix scope organization application
    \<and> (\<exists>st'. QWasmLocalStorageSettingsPrivate_set
                (QWasmLocalStorageSettingsPrivate_ctor scope organization application) render key v st
              = Inr st'
           \<and> QWasmLocalStorageSettingsPrivate_get
                (QWasmLocalStorageSettingsPrivate_ctor scope organization application)
                fallbacks parse key st' = Some (parse (render v))
           \<and> (parse (render v) = v \<longrightarrow>
                QWasmLocalStorageSettingsPrivate_get
                  (QWasmLocalStorageSettingsPrivate_ctor scope organization application)
                  fallbacks parse key st' = Some v))"
proof -
  let ?b = "QWasmLocalStorageSettingsPrivate_ctor scope organization application"
  let ?f = "mostSpecificPrefix scope organization application"
  from ctor_prefixes_hd [OF assms] obtain rest where ps: "m_keyPrefixes ?b = ?f # rest"
    by blast
  have w: "QWasmLocalStorageSettingsPrivate_set ?b render key v st
      = Inr (setItem (?f @ key) (render v) st)"
    using ps by (rule set_first_only)
  have r: "QWasmLocalStorageSettingsPrivate_get ?b fallbacks parse key
      (setItem (?f @ key) (render v) st) = Some (parse (render v))"
    by (simp add: QWasmLocalStorageSettingsPrivate_get_def ps getItem_setItem)
  from ps w r show ?thesis by simp
qed

theorem set_then_get_roundtrip_witness:
  "''Acme'' \<noteq> [] \<and> (\<lambda>s. s) ((\<lambda>s. s) ''1'') = ''1''
   \<and> hd (m_keyPrefixes (QWasmLocalStorageSettingsPrivate_ctor UserScope ''Acme'' ''Tool''))
       = ''qt-v0-Acme-Tool-''
   \<and> (\<exists>st'. QWasmLocalStorageSettingsPrivate_set
                (QWasmLocalStorageSettingsPrivate_ctor UserScope ''Acme'' ''Tool'') (\<lambda>s. s) ''x'' ''1'' []
              = Inr st'
           \<and> QWasmLocalStorageSettingsPrivate_get
                (QWasmLocalStorageSettingsPrivate_ctor UserScope ''Acme'' ''Tool'')
                True (\<lambda>s. s) ''x'' st' = Some ''1'')"
  using set_then_get_roundtrip [where organization = "''Acme''" and parse = "\<lambda>s. s"
      and render = "\<lambda>s. s" and v = "''1''" and scope = UserScope and application = "''Tool''"
      and key = "''x''" and st = "[]" and fallbacks = True]
  by (simp add: mostSpecificPrefix_def replaceSeparator_def)

text \<open>
  \<^bold>\<open>C8\<close>. \<^verbatim>\<open>keyNameFromPrefixedStorageName(p, s)\<close> is the view of the rest of \<open>s\<close> after
  \<open>p\<close> whenever \<open>s\<close> starts with \<open>p\<close>, the view of no characters when \<open>s\<close> is \<open>p\<close>
  itself, and the null view exactly when \<open>s\<close> does not start with \<open>p\<close>. The null view is
  not the view of no characters: what a name that does not match gives differs from
  what the prefix itself gives. (Both are empty, and \<^verbatim>\<open>isEmpty()\<close> is what the callers in
  this file ask.)
\<close>

theorem keyName_slice_or_null:
  "keyNameFromPrefixedStorageName p s
     = (if startsWith s p then View (drop (length p) s) else NullView)
   \<and> (startsWith s p \<longrightarrow>
        (\<exists>r. keyNameFromPrefixedStorageName p s = View r \<and> p @ r = s))
   \<and> keyNameFromPrefixedStorageName p p = View []
   \<and> (isNull (keyNameFromPrefixedStorageName p s) \<longleftrightarrow> \<not> startsWith s p)
   \<and> (\<not> startsWith s p \<longrightarrow>
        keyNameFromPrefixedStorageName p s \<noteq> keyNameFromPrefixedStorageName p p)"
  by (auto simp: keyNameFromPrefixedStorageName_def startsWith_def sliced_def isNull_def prefix_def)

theorem keyName_slice_or_null_witness:
  "startsWith ''qt-v0-A-x'' ''qt-v0-A-''
   \<and> keyNameFromPrefixedStorageName ''qt-v0-A-'' ''qt-v0-A-x'' = View ''x''
   \<and> \<not> startsWith ''zz'' ''qt-v0-A-''
   \<and> isNull (keyNameFromPrefixedStorageName ''qt-v0-A-'' ''zz'')
   \<and> \<not> isNull (keyNameFromPrefixedStorageName ''qt-v0-A-'' ''qt-v0-A-'')
   \<and> keyNameFromPrefixedStorageName ''qt-v0-A-'' ''zz''
       \<noteq> keyNameFromPrefixedStorageName ''qt-v0-A-'' ''qt-v0-A-''"
proof -
  have m: "startsWith ''qt-v0-A-x'' ''qt-v0-A-''" and n: "\<not> startsWith ''zz'' ''qt-v0-A-''"
    and e: "startsWith ''qt-v0-A-'' ''qt-v0-A-''"
    by (simp_all add: startsWith_def)
  from m keyName_slice_or_null [of "''qt-v0-A-''" "''qt-v0-A-x''"]
  have a: "keyNameFromPrefixedStorageName ''qt-v0-A-'' ''qt-v0-A-x'' = View ''x''"
    by simp
  from n keyName_slice_or_null [of "''qt-v0-A-''" "''zz''"]
  have b: "isNull (keyNameFromPrefixedStorageName ''qt-v0-A-'' ''zz'')
      \<and> keyNameFromPrefixedStorageName ''qt-v0-A-'' ''zz''
          \<noteq> keyNameFromPrefixedStorageName ''qt-v0-A-'' ''qt-v0-A-''"
    by blast
  from e keyName_slice_or_null [of "''qt-v0-A-''" "''qt-v0-A-''"]
  have c: "\<not> isNull (keyNameFromPrefixedStorageName ''qt-v0-A-'' ''qt-v0-A-'')"
    by blast
  from m n a b c show ?thesis by blast
qed

text \<open>
  \<^bold>\<open>C9\<close>, where the code departs from it. Constructed with an empty organization,
  either backend reports \<^verbatim>\<open>AccessError\<close> right after construction. Nothing guards the
  later operations, though. The localStorage constructor returns early with an empty
  prefix list, and \<^verbatim>\<open>set\<close>, \<^verbatim>\<open>remove\<close> and \<^verbatim>\<open>clear\<close> of a non-empty storage then evaluate
  \<^verbatim>\<open>m_keyPrefixes.first()\<close> on that empty list without looking at the status: the program
  leaves its defined behaviour on the way to \<^verbatim>\<open>setItem\<close> or \<^verbatim>\<open>removeItem\<close>. The IndexedDB
  constructor does not look at the organization at all: the instance becomes ready when
  the existence check reports no file, and its \<^verbatim>\<open>sync\<close> then issues a store request.
\<close>

theorem empty_organization_unguarded:
  "status (QWasmLocalStorageSettingsPrivate_ctor scope [] application) = AccessError
   \<and> m_keyPrefixes (QWasmLocalStorageSettingsPrivate_ctor scope [] application) = []
   \<and> statusOf (QWasmIDBSettingsPrivate_ctor this scope [] application w) this = Some AccessError
   \<and> QWasmLocalStorageSettingsPrivate_set
         (QWasmLocalStorageSettingsPrivate_ctor UserScope [] ''Tool'') (\<lambda>s. s) ''x'' ''1'' []
       = Inl UndefinedBehaviour
   \<and> QWasmLocalStorageSettingsPrivate_remove
         (QWasmLocalStorageSettingsPrivate_ctor UserScope [] ''Tool'') ''x'' []
       = Inl UndefinedBehaviour
   \<and> QWasmLocalStorageSettingsPrivate_clear
         (QWasmLocalStorageSettingsPrivate_ctor UserScope [] ''Tool'') [(''other'', ''1'')]
       = Inl UndefinedBehaviour
   \<and> (\<exists>w1 w2. run [Construct 1 UserScope [] ''Tool'', OnCheck 1 0] initialProcess = Inr w1
         \<and> statusOf w1 1 = Some NoError
         \<and> QWasmIDBSettingsPrivate_sync 1 True w1 = Inr w2
         \<and> requests w2 = [AsyncExists 1, AsyncStore 1])"
proof -
  have ps: "m_keyPrefixes (QWasmLocalStorageSettingsPrivate_ctor sc [] app) = []" for sc app
    by (simp add: QWasmLocalStorageSettingsPrivate_ctor_def setStatus_def)
  have st: "status (QWasmLocalStorageSettingsPrivate_ctor scope [] application) = AccessError"
    by (simp add: QWasmLocalStorageSettingsPrivate_ctor_def setStatus_def)
  have idb: "statusOf (QWasmIDBSettingsPrivate_ctor this scope [] application w) this
      = Some AccessError"
    by (simp add: ctor_gate_and_status)
  have s: "QWasmLocalStorageSettingsPrivate_set
         (QWasmLocalStorageSettingsPrivate_ctor UserScope [] ''Tool'') (\<lambda>s. s) ''x'' ''1'' []
       = Inl UndefinedBehaviour"
    by (simp add: QWasmLocalStorageSettingsPrivate_set_def ps first_def)
  have r: "QWasmLocalStorageSettingsPrivate_remove
         (QWasmLocalStorageSettingsPrivate_ctor UserScope [] ''Tool'') ''x'' []
       = Inl UndefinedBehaviour"
    by (simp add: QWasmLocalStorageSettingsPrivate_remove_def ps first_def)
  have c: "QWasmLocalStorageSettingsPrivate_clear
         (QWasmLocalStorageSettingsPrivate_ctor UserScope [] ''Tool'') [(''other'', ''1'')]
       = Inl UndefinedBehaviour"
    by (simp add: QWasmLocalStorageSettingsPrivate_clear_def ps storage_keys_map first_def)
  have t: "\<exists>w1 w2. run [Construct 1 UserScope [] ''Tool'', OnCheck 1 0] initialProcess = Inr w1
         \<and> statusOf w1 1 = Some NoError
         \<and> QWasmIDBSettingsPrivate_sync 1 True w1 = Inr w2
         \<and> requests w2 = [AsyncExists 1, AsyncStore 1]"
    by (simp add: idb_defs initialProcess_def Let_def statusOf_def)
  from st ps idb s r c t show ?thesis by (intro conjI)
qed

text \<open>
  \<^bold>\<open>C10\<close> (as the code has it). \<^verbatim>\<open>remove(key)\<close> and \<^verbatim>\<open>clear()\<close> succeed on an instance
  with a first prefix and leave unchanged every stored entry whose physical name is not
  a strict extension of the first prefix, except that \<^verbatim>\<open>remove\<close> of the empty key deletes
  the entry named by the first prefix itself; more precisely \<^verbatim>\<open>remove(key)\<close> leaves every
  entry whose name does not start with \<^verbatim>\<open>prefix[0] + key\<close>. \<^verbatim>\<open>clear()\<close> deletes exactly the
  strict extensions of the first prefix, so the entry named by the first prefix itself
  survives it. An entry under a fallback prefix survives when its name is not a strict
  extension of the first prefix.
\<close>

theorem remove_clear_frame:
  assumes "m_keyPrefixes this = f # rest"
  shows "\<exists>st1 st2.
       QWasmLocalStorageSettingsPrivate_remove this key st = Inr st1
     \<and> QWasmLocalStorageSettingsPrivate_clear this st = Inr st2
     \<and> (\<forall>k. \<not> (startsWith k f \<and> k \<noteq> f) \<and> (key \<noteq> [] \<or> k \<noteq> f)
            \<longrightarrow> getItem st1 k = getItem st k)
     \<and> (\<forall>k. \<not> startsWith k (f @ key) \<longrightarrow> getItem st1 k = getItem st k)
     \<and> st2 = filter (\<lambda>e. \<not> (startsWith (fst e) f \<and> fst e \<noteq> f)) st
     \<and> (\<forall>k. \<not> (startsWith k f \<and> k \<noteq> f) \<longrightarrow> getItem st2 k = getItem st k)"
proof -
  let ?st1 = "filter (\<lambda>e. \<not> prefix (f @ key) (fst e)) st"
  let ?st2 = "filter (\<lambda>e. \<not> strict_prefix f (fst e)) st"
  have st2: "?st2 = filter (\<lambda>e. \<not> (startsWith (fst e) f \<and> fst e \<noteq> f)) st"
    by (rule filter_cong) (auto simp: startsWith_def strict_prefix_def)
  have g1: "getItem ?st1 k = getItem st k" if "\<not> startsWith k (f @ key)" for k
    using that getItem_filter_key [of "\<lambda>k. \<not> prefix (f @ key) k" st k]
    by (auto simp: startsWith_def)
  have g2: "getItem ?st2 k = getItem st k" if "\<not> (startsWith k f \<and> k \<noteq> f)" for k
    using that getItem_filter_key [of "\<lambda>k. \<not> strict_prefix f k" st k]
    by (auto simp: startsWith_def strict_prefix_def)
  have imp: "\<not> startsWith k (f @ key)"
    if "\<not> (startsWith k f \<and> k \<noteq> f) \<and> (key \<noteq> [] \<or> k \<noteq> f)" for k
    using that by (auto simp: startsWith_def prefix_def)
  have r: "QWasmLocalStorageSettingsPrivate_remove this key st = Inr ?st1"
    using assms by (rule remove_prefix_filter)
  have c: "QWasmLocalStorageSettingsPrivate_clear this st = Inr ?st2"
    using assms by (rule clear_prefix_filter)
  have f1: "\<forall>k. \<not> (startsWith k f \<and> k \<noteq> f) \<and> (key \<noteq> [] \<or> k \<noteq> f)
            \<longrightarrow> getItem ?st1 k = getItem st k"
    using g1 imp by blast
  have f2: "\<forall>k. \<not> startsWith k (f @ key) \<longrightarrow> getItem ?st1 k = getItem st k"
    using g1 by blast
  have f3: "\<forall>k. \<not> (startsWith k f \<and> k \<noteq> f) \<longrightarrow> getItem ?st2 k = getItem st k"
    using g2 by blast
  from r c f1 f2 st2 f3 show ?thesis
    by (intro exI [of _ ?st1] exI [of _ ?st2] conjI)
qed

theorem remove_clear_frame_witness:
  "m_keyPrefixes (QWasmLocalStorageSettingsPrivate_ctor UserScope ''Acme'' ''Tool'')
     = ''qt-v0-Acme-Tool-'' # [''qt-v0-Acme-all-apps-'', ''qt-v0-Acme-Tool-sys-tem-'',
         ''qt-v0-Acme-all-apps-sys-tem-'']
   \<and> (\<exists>st1 st2.
        QWasmLocalStorageSettingsPrivate_remove
          (QWasmLocalStorageSettingsPrivate_ctor UserScope ''Acme'' ''Tool'') ''x''
          [(''qt-v0-Acme-all-apps-x'', ''2''), (''qt-v0-Acme-Tool-'', ''0''),
           (''qt-v0-Acme-Tool-x'', ''1'')] = Inr st1
      \<and> QWasmLocalStorageSettingsPrivate_clear
          (QWasmLocalStorageSettingsPrivate_ctor UserScope ''Acme'' ''Tool'')
          [(''qt-v0-Acme-all-apps-x'', ''2''), (''qt-v0-Acme-Tool-'', ''0''),
           (''qt-v0-Acme-Tool-x'', ''1'')] = Inr st2
      \<and> getItem st1 ''qt-v0-Acme-all-apps-x'' = Some ''2''
      \<and> getItem st1 ''qt-v0-Acme-Tool-'' = Some ''0''
      \<and> st2 = [(''qt-v0-Acme-all-apps-x'', ''2''), (''qt-v0-Acme-Tool-'', ''0'')])"
proof -
  let ?b = "QWasmLocalStorageSettingsPrivate_ctor UserScope ''Acme'' ''Tool''"
  let ?st = "[(''qt-v0-Acme-all-apps-x'', ''2''), (''qt-v0-Acme-Tool-'', ''0''),
           (''qt-v0-Acme-Tool-x'', ''1'')]"
  have ps: "m_keyPrefixes ?b
     = ''qt-v0-Acme-Tool-'' # [''qt-v0-Acme-all-apps-'', ''qt-v0-Acme-Tool-sys-tem-'',
         ''qt-v0-Acme-all-apps-sys-tem-'']"
    by (simp add: QWasmLocalStorageSettingsPrivate_ctor_def Let_def replaceSeparator_def)
  from remove_clear_frame [OF ps, of "''x''" ?st]
  obtain st1 st2 where
    r: "QWasmLocalStorageSettingsPrivate_remove ?b ''x'' ?st = Inr st1" and
    c: "QWasmLocalStorageSettingsPrivate_clear ?b ?st = Inr st2" and
    f1: "\<forall>k. \<not> (startsWith k ''qt-v0-Acme-Tool-'' \<and> k \<noteq> ''qt-v0-Acme-Tool-'')
              \<and> (''x'' \<noteq> [] \<or> k \<noteq> ''qt-v0-Acme-Tool-'')
            \<longrightarrow> getItem st1 k = getItem ?st k" and
    s2: "st2 = filter (\<lambda>e. \<not> (startsWith (fst e) ''qt-v0-Acme-Tool-''
              \<and> fst e \<noteq> ''qt-v0-Acme-Tool-'')) ?st"
    by blast
  have a: "getItem st1 ''qt-v0-Acme-all-apps-x'' = Some ''2''"
    using f1 [rule_format, of "''qt-v0-Acme-all-apps-x''"]
    by (simp add: startsWith_def getItem_def)
  have b: "getItem st1 ''qt-v0-Acme-Tool-'' = Some ''0''"
    using f1 [rule_format, of "''qt-v0-Acme-Tool-''"]
    by (simp add: startsWith_def getItem_def)
  have d: "st2 = [(''qt-v0-Acme-all-apps-x'', ''2''), (''qt-v0-Acme-Tool-'', ''0'')]"
    using s2 by (simp add: startsWith_def)
  from ps r c a b d show ?thesis by blast
qed

text \<open>
  \<^bold>\<open>C10\<close>, the statement as written fails: the application's \<^verbatim>\<open>sys-tem\<close> fallback
  prefix extends the application's user prefix, so for a user-scope instance \<^verbatim>\<open>clear()\<close>
  deletes the entry stored under the fallback prefix, and so does \<^verbatim>\<open>remove\<close> of a key
  such as \<^verbatim>\<open>s\<close> for the same logical key; and \<^verbatim>\<open>remove\<close> of the empty key deletes the
  entry named by the first prefix itself.
\<close>

theorem clear_deletes_system_fallback_entry:
  "m_keyPrefixes (QWasmLocalStorageSettingsPrivate_ctor UserScope ''Acme'' ''Tool'') ! 2
     = ''qt-v0-Acme-Tool-sys-tem-''
   \<and> QWasmLocalStorageSettingsPrivate_clear
       (QWasmLocalStorageSettingsPrivate_ctor UserScope ''Acme'' ''Tool'')
       [(''qt-v0-Acme-Tool-sys-tem-x'', ''1'')] = Inr []
   \<and> QWasmLocalStorageSettingsPrivate_remove
       (QWasmLocalStorageSettingsPrivate_ctor UserScope ''Acme'' ''Tool'') ''s''
       [(''qt-v0-Acme-Tool-sys-tem-s'', ''1'')] = Inr []
   \<and> QWasmLocalStorageSettingsPrivate_remove
       (QWasmLocalStorageSettingsPrivate_ctor UserScope ''Acme'' ''Tool'') []
       [(''qt-v0-Acme-Tool-'', ''1'')] = Inr []"
proof -
  let ?b = "QWasmLocalStorageSettingsPrivate_ctor UserScope ''Acme'' ''Tool''"
  have ps: "m_keyPrefixes ?b
     = ''qt-v0-Acme-Tool-'' # [''qt-v0-Acme-all-apps-'', ''qt-v0-Acme-Tool-sys-tem-'',
         ''qt-v0-Acme-all-apps-sys-tem-'']"
    by (simp add: QWasmLocalStorageSettingsPrivate_ctor_def Let_def replaceSeparator_def)
  have a: "m_keyPrefixes ?b ! 2 = ''qt-v0-Acme-Tool-sys-tem-''"
    by (simp add: ps)
  have c: "QWasmLocalStorageSettingsPrivate_clear ?b [(''qt-v0-Acme-Tool-sys-tem-x'', ''1'')] = Inr []"
    by (simp add: clear_prefix_filter [OF ps])
  have r1: "QWasmLocalStorageSettingsPrivate_remove ?b ''s''
       [(''qt-v0-Acme-Tool-sys-tem-s'', ''1'')] = Inr []"
    by (simp add: remove_prefix_filter [OF ps])
  have r2: "QWasmLocalStorageSettingsPrivate_remove ?b [] [(''qt-v0-Acme-Tool-'', ''1'')] = Inr []"
    by (simp add: remove_prefix_filter [OF ps])
  from a c r1 r2 show ?thesis by (intro conjI)
qed

end
